theory Spec2Isabelle
  imports Complex_Main "HOL-Library.Sublist"
begin

section \<open>Python values used by nova\_dual\_chatbot.py\<close>

text \<open>
  A Python \<open>str\<close> is a sequence of Unicode code points. The program's own literals are
  Korean text, so a string is a list of code points (natural numbers), not a list of
  8-bit characters. \<open>ascii\<close> writes an ASCII literal as such a list.
\<close>

type_synonym pystr = "nat list"

definition ascii :: "string \<Rightarrow> pystr" where
  "ascii s = map of_char s"

text \<open>
  The value \<open>json.loads\<close> returns: \<open>None\<close>, a bool, a number, a \<open>str\<close>, a list or a
  dict with \<open>str\<close> keys. A dict is an association list read with \<open>map_of\<close>. Of a number
  the program only ever asks whether it is zero (truthiness), so an \<open>int\<close> is an
  integer and a \<open>float\<close> a real.
\<close>

datatype json =
    JNull
  | JBool bool
  | JInt int
  | JFloat real
  | JStr pystr
  | JArr "json list"
  | JObj "(pystr \<times> json) list"

text \<open>The exceptions the two request methods can meet; all are subclasses of \<open>Exception\<close>.\<close>

datatype exn =
    TransportError
  | AttributeError
  | ValueError
  | KeyError
  | IndexError
  | TypeError

definition bind_exn :: "exn + 'a \<Rightarrow> ('a \<Rightarrow> exn + 'b) \<Rightarrow> exn + 'b" where
  "bind_exn m f = (case m of Inl e \<Rightarrow> Inl e | Inr x \<Rightarrow> f x)"

text \<open>\<open>bool(v)\<close>, as \<open>if v:\<close> tests it.\<close>

fun truthy :: "json \<Rightarrow> bool" where
  "truthy JNull = False"
| "truthy (JBool b) = b"
| "truthy (JInt n) = (n \<noteq> 0)"
| "truthy (JFloat x) = (x \<noteq> 0)"
| "truthy (JStr s) = (s \<noteq> [])"
| "truthy (JArr xs) = (xs \<noteq> [])"
| "truthy (JObj kvs) = (kvs \<noteq> [])"

text \<open>\<open>v[k]\<close> with a \<open>str\<close> key \<open>k\<close>.\<close>

fun subscript_key :: "json \<Rightarrow> pystr \<Rightarrow> exn + json" where
  "subscript_key (JObj kvs) k = (case map_of kvs k of None \<Rightarrow> Inl KeyError | Some v \<Rightarrow> Inr v)"
| "subscript_key _ k = Inl TypeError"

text \<open>\<open>v[0]\<close>. The keys of a decoded dict are strings, so the integer key is never there.\<close>

fun subscript_zero :: "json \<Rightarrow> exn + json" where
  "subscript_zero (JArr []) = Inl IndexError"
| "subscript_zero (JArr (x # xs)) = Inr x"
| "subscript_zero (JStr []) = Inl IndexError"
| "subscript_zero (JStr (c # cs)) = Inr (JStr [c])"
| "subscript_zero (JObj kvs) = Inl KeyError"
| "subscript_zero _ = Inl TypeError"

text \<open>\<open>k in v\<close> with a \<open>str\<close> \<open>k\<close>: key of a dict, element of a list, substring of a string.\<close>

fun contains_key :: "pystr \<Rightarrow> json \<Rightarrow> exn + bool" where
  "contains_key k (JObj kvs) = Inr (map_of kvs k \<noteq> None)"
| "contains_key k (JArr xs) = Inr (JStr k \<in> set xs)"
| "contains_key k (JStr s) = Inr (sublist k s)"
| "contains_key k _ = Inl TypeError"

text \<open>\<open>v.get(k, d)\<close>: only a dict has the method.\<close>

fun dict_get :: "json \<Rightarrow> pystr \<Rightarrow> json \<Rightarrow> exn + json" where
  "dict_get (JObj kvs) k d = Inr (case map_of kvs k of None \<Rightarrow> d | Some v \<Rightarrow> v)"
| "dict_get _ k d = Inl AttributeError"

text \<open>
  \<open>str.strip()\<close> removes the code points for which \<open>str.isspace\<close> holds from both ends.
\<close>

definition py_isspace :: "nat \<Rightarrow> bool" where
  "py_isspace c = (c \<in> set [9, 10, 11, 12, 13, 28, 29, 30, 31, 32, 133, 160, 5760,
     8192, 8193, 8194, 8195, 8196, 8197, 8198, 8199, 8200, 8201, 8202,
     8232, 8233, 8239, 8287, 12288])"

definition strip :: "pystr \<Rightarrow> pystr" where
  "strip s = rev (dropWhile py_isspace (rev (dropWhile py_isspace s)))"

text \<open>\<open>v.strip()\<close>: only a \<open>str\<close> has the method.\<close>

fun py_strip :: "json \<Rightarrow> exn + pystr" where
  "py_strip (JStr s) = Inr (strip s)"
| "py_strip _ = Inl AttributeError"

section \<open>The transport and the effects of a turn\<close>

text \<open>
  The request both methods build: the model identifier and the body that \<open>json.dumps\<close>
  serialises (one user message holding the prompt, and the inference configuration).
\<close>

record request =
  model_id :: string
  prompt :: pystr
  max_new_tokens :: nat
  temperature :: real

text \<open>
  What \<open>bedrock_runtime.invoke_model\<close> does with a request. The call raises, or returns
  a response whose \<open>body\<close> entry may be missing (\<open>None\<close>); reading the body raises, or
  gives bytes on which \<open>json.loads\<close> raises (\<open>Read_Bytes None\<close>) or returns a value.
\<close>

datatype body_read = Read_Raises | Read_Bytes "json option"

datatype model_outcome = Call_Raises | Response "body_read option"

text \<open>
  One event of the response stream: \<open>event.get('chunk')\<close> is missing or falsy
  (\<open>No_Chunk\<close>), or is a chunk without a \<open>bytes\<close> entry (\<open>Chunk_No_Bytes\<close>), or is a chunk
  whose bytes \<open>json.loads(chunk.get('bytes').decode())\<close> refuses (\<open>Chunk_Bytes None\<close>)
  or decodes to a value.
\<close>

datatype event = No_Chunk | Chunk_No_Bytes | Chunk_Bytes "json option"

text \<open>How iterating the transport's stream ends after its events: exhausted, or raising.\<close>

datatype stream_end = Exhausted | Raises

datatype stream_outcome = Stream_Call_Raises | Stream_Response "(event list \<times> stream_end) option"

record transport =
  invoke_model :: "request \<Rightarrow> model_outcome"
  invoke_model_with_response_stream :: "request \<Rightarrow> stream_outcome"

text \<open>
  The \<open>print\<close> statements of the class, one constructor each. The elapsed time and the
  text of a caught exception, which two of them interpolate, are left out.
\<close>

datatype line =
    Line_Query pystr
  | Line_Rule
  | Line_Micro_Calling
  | Line_Micro_Done
  | Line_Micro_Error
  | Line_Pro_Start
  | Line_Pro_Error
  | Line_Micro_Header
  | Line_Micro_Response pystr
  | Line_Pro_Header
  | Line_Done

text \<open>
  The trace of a turn. \<open>Submit_Micro\<close> and \<open>Submit_Pro\<close> are the two \<open>executor.submit\<close>
  calls, \<open>Await_Micro r\<close> and \<open>Await_Pro\<close> the returns of the two \<open>future.result()\<close>
  calls, \<open>Pull\<close> one \<open>next\<close> on the generator by the \<open>for\<close> loop of \<open>chat\<close>, \<open>Write\<close> one
  \<open>sys.stdout.write\<close>.
\<close>

datatype effect =
    Print line
  | Invoke_Model request
  | Body_Read
  | Invoke_Stream request
  | Stream_Read
  | Submit_Micro
  | Submit_Pro
  | Await_Micro pystr
  | Await_Pro
  | Pull
  | Write pystr

section \<open>create\_prompts\<close>

definition micro_prefix :: pystr where
  "micro_prefix = [49324, 50857, 51088, 44032, 32, 45796, 51020, 32, 51656, 47928, 51012,
     32, 54664, 49845, 45768, 45796, 58, 32, 34]"

definition micro_suffix :: pystr where
  "micro_suffix = [34, 10, 10, 45817, 49888, 51008, 32, 52828, 51208, 54620, 32, 65, 73, 32,
     50612, 49884, 49828, 53556, 53944, 51077, 45768, 45796, 46, 32, 51656, 47928, 51012, 32,
     51060, 54644, 54664, 51004, 47728, 44, 32, 49345, 49464, 54620, 32, 45813, 48320, 51012,
     32, 51456, 48708, 54616, 44256, 32, 51080, 45796, 45716, 32, 45236, 50857, 51032, 32,
     51687, 44256, 32, 44201, 47140, 54616, 45716, 32, 54620, 32, 47928, 51109, 51004, 47196,
     32, 51025, 45813, 54644, 51452, 49464, 50836, 46, 32, 54620, 44397, 50612, 47196, 32,
     45813, 48320, 54616, 49464, 50836, 46]"

definition pro_prefix :: pystr where
  "pro_prefix = [45796, 51020, 32, 51656, 47928, 50640, 32, 45824, 54644, 32, 51204, 47928,
     44032, 32, 49688, 51456, 51032, 32, 49345, 49464, 54616, 44256, 32, 44396, 51312, 54868,
     46108, 32, 45813, 48320, 51012, 32, 51228, 44277, 54644, 51452, 49464, 50836, 46, 32, 10,
     48373, 51105, 54620, 32, 51452, 51228, 45716, 32, 51060, 54644, 54616, 44592, 32, 49789,
     44172, 32, 45208, 45572, 50612, 32, 49444, 47749, 54616, 44256, 44, 32, 54596, 50836,
     54620, 32, 44221, 50864, 32, 47560, 53356, 45796, 50868, 51012, 32, 49324, 50857, 54616,
     50668, 32, 49436, 49885, 51012, 32, 51648, 51221, 54644, 51452, 49464, 50836, 46, 10,
     54620, 44397, 50612, 47196, 32, 45813, 48320, 54616, 49464, 50836, 46, 10, 10, 51656,
     47928, 58, 32, 34]"

definition pro_suffix :: pystr where
  "pro_suffix = [34, 32]"

definition create_prompts :: "pystr \<Rightarrow> pystr \<times> pystr" where
  "create_prompts user_query =
     (let micro_prompt = micro_prefix @ user_query @ micro_suffix;
          pro_prompt = pro_prefix @ user_query @ pro_suffix
      in (micro_prompt, pro_prompt))"

section \<open>invoke\_nova\_micro\<close>

definition micro_fallback :: pystr where
  "micro_fallback = [51396, 49569, 54633, 45768, 45796, 46, 32, 52488, 44592, 32, 51025,
     45813, 32, 49373, 49457, 50640, 32, 47928, 51228, 44032, 32, 48156, 49373, 54664, 49845,
     45768, 45796, 46]"

definition micro_request :: "pystr \<Rightarrow> request" where
  "micro_request p =
     \<lparr>model_id = ''amazon.nova-micro-v1:0'', prompt = p, max_new_tokens = 100,
      temperature = 3 / 10\<rparr>"

text \<open>\<open>response_body['output']['message']['content'][0]['text']\<close>.\<close>

definition micro_completion :: "json \<Rightarrow> exn + json" where
  "micro_completion response_body =
     bind_exn (subscript_key response_body (ascii ''output'')) (\<lambda>a.
     bind_exn (subscript_key a (ascii ''message'')) (\<lambda>b.
     bind_exn (subscript_key b (ascii ''content'')) (\<lambda>c.
     bind_exn (subscript_zero c) (\<lambda>d.
     subscript_key d (ascii ''text'')))))"

text \<open>
  The body of the \<open>try\<close> block: the effects it performs, and how it leaves. The line
  that reports completion is printed once the completion has been extracted, before
  \<open>completion.strip()\<close> is evaluated for the \<open>return\<close>.
\<close>

definition micro_try :: "transport \<Rightarrow> request \<Rightarrow> effect list \<times> (exn + pystr)" where
  "micro_try tr req =
     (case invoke_model tr req of
        Call_Raises \<Rightarrow> ([Print Line_Micro_Calling, Invoke_Model req], Inl TransportError)
      | Response None \<Rightarrow> ([Print Line_Micro_Calling, Invoke_Model req], Inl AttributeError)
      | Response (Some Read_Raises) \<Rightarrow>
          ([Print Line_Micro_Calling, Invoke_Model req, Body_Read], Inl TransportError)
      | Response (Some (Read_Bytes None)) \<Rightarrow>
          ([Print Line_Micro_Calling, Invoke_Model req, Body_Read], Inl ValueError)
      | Response (Some (Read_Bytes (Some response_body))) \<Rightarrow>
          (case micro_completion response_body of
             Inl e \<Rightarrow> ([Print Line_Micro_Calling, Invoke_Model req, Body_Read], Inl e)
           | Inr completion \<Rightarrow>
               ([Print Line_Micro_Calling, Invoke_Model req, Body_Read, Print Line_Micro_Done],
                py_strip completion)))"

definition invoke_nova_micro :: "transport \<Rightarrow> pystr \<Rightarrow> effect list \<times> pystr" where
  "invoke_nova_micro tr p =
     (case micro_try tr (micro_request p) of
        (fx, Inr completion) \<Rightarrow> (fx, completion)
      | (fx, Inl e) \<Rightarrow> (fx @ [Print Line_Micro_Error], micro_fallback))"

section \<open>stream\_nova\_pro\<close>

definition pro_fallback :: pystr where
  "pro_fallback = [10, 51396, 49569, 54633, 45768, 45796, 46, 32, 49345, 49464, 32, 45813,
     48320, 32, 49373, 49457, 32, 51473, 32, 50724, 47448, 44032, 32, 48156, 49373, 54664,
     49845, 45768, 45796, 46]"

definition pro_request :: "pystr \<Rightarrow> request" where
  "pro_request p =
     \<lparr>model_id = ''amazon.nova-pro-v1:0'', prompt = p, max_new_tokens = 2048,
      temperature = 5 / 10\<rparr>"

text \<open>
  The body of the \<open>for\<close> loop on one event: it raises, or goes on to the next event
  (\<open>Inr None\<close>), or reaches the \<open>yield\<close> with a value.
\<close>

definition process_event :: "event \<Rightarrow> exn + json option" where
  "process_event ev =
     (case ev of
        No_Chunk \<Rightarrow> Inr None
      | Chunk_No_Bytes \<Rightarrow> Inl AttributeError
      | Chunk_Bytes None \<Rightarrow> Inl ValueError
      | Chunk_Bytes (Some chunk_obj) \<Rightarrow>
          bind_exn (contains_key (ascii ''contentBlockDelta'') chunk_obj) (\<lambda>present.
            if present then
              bind_exn (subscript_key chunk_obj (ascii ''contentBlockDelta'')) (\<lambda>block.
              bind_exn (dict_get block (ascii ''delta'') (JObj [])) (\<lambda>delta.
              bind_exn (dict_get delta (ascii ''text'') (JStr [])) (\<lambda>text_content.
                Inr (if truthy text_content then Some text_content else None))))
            else Inr None))"

text \<open>
  \<open>stream_nova_pro\<close> contains \<open>yield\<close>, so it is a generator function: a call runs none
  of its body and returns a generator object. The body runs inside \<open>next\<close>, from where
  the generator stands to its next \<open>yield\<close> or its end. A generator stands before the
  first statement (\<open>Created\<close>), at the \<open>yield\<close> of the loop with the rest of the
  transport's stream ahead (\<open>Suspended\<close>), at the \<open>yield\<close> of the handler
  (\<open>After_Fallback\<close>), or past its end (\<open>Finished\<close>).
\<close>

datatype generator =
    Created pystr
  | Suspended "event list" stream_end
  | After_Fallback
  | Finished

definition stream_nova_pro :: "pystr \<Rightarrow> effect list \<times> generator" where
  "stream_nova_pro p = ([], Created p)"

text \<open>
  One \<open>next\<close> gives the effects performed, the value yielded (\<open>None\<close> for
  \<open>StopIteration\<close>) and the generator afterwards. \<open>handler\<close> is the \<open>except\<close> clause,
  entered after the effects \<open>fx\<close>.
\<close>

definition handler :: "effect list \<Rightarrow> effect list \<times> json option \<times> generator" where
  "handler fx = (fx @ [Print Line_Pro_Error], Some (JStr pro_fallback), After_Fallback)"

fun for_event ::
  "effect list \<Rightarrow> event list \<Rightarrow> stream_end \<Rightarrow> effect list \<times> json option \<times> generator" where
  "for_event fx [] Exhausted = (fx @ [Stream_Read], None, Finished)"
| "for_event fx [] Raises = handler (fx @ [Stream_Read])"
| "for_event fx (ev # evs) e =
     (case process_event ev of
        Inl x \<Rightarrow> handler (fx @ [Stream_Read])
      | Inr None \<Rightarrow> for_event (fx @ [Stream_Read]) evs e
      | Inr (Some text_content) \<Rightarrow> (fx @ [Stream_Read], Some text_content, Suspended evs e))"

definition gen_next :: "transport \<Rightarrow> generator \<Rightarrow> effect list \<times> json option \<times> generator" where
  "gen_next tr g =
     (case g of
        Created p \<Rightarrow>
          (case invoke_model_with_response_stream tr (pro_request p) of
             Stream_Call_Raises \<Rightarrow>
               handler [Print Line_Pro_Start, Invoke_Stream (pro_request p)]
           | Stream_Response None \<Rightarrow>
               ([Print Line_Pro_Start, Invoke_Stream (pro_request p)], None, Finished)
           | Stream_Response (Some (evs, e)) \<Rightarrow>
               for_event [Print Line_Pro_Start, Invoke_Stream (pro_request p)] evs e)
      | Suspended evs e \<Rightarrow> for_event [] evs e
      | After_Fallback \<Rightarrow> ([], None, Finished)
      | Finished \<Rightarrow> ([], None, Finished))"

text \<open>What is left for a generator to do bounds the number of values it can still yield.\<close>

fun rank :: "transport \<Rightarrow> generator \<Rightarrow> nat" where
  "rank tr (Created p) =
     (case invoke_model_with_response_stream tr (pro_request p) of
        Stream_Response (Some (evs, e)) \<Rightarrow> length evs + 3
      | _ \<Rightarrow> 3)"
| "rank tr (Suspended evs e) = length evs + 2"
| "rank tr After_Fallback = 1"
| "rank tr Finished = 0"

lemma for_event_rank:
  "for_event fx evs e = (fx', Some v, g') \<Longrightarrow> rank tr g' < length evs + 2"
  by (induction fx evs e rule: for_event.induct)
     (auto simp: handler_def split: sum.splits option.splits)

lemma gen_next_rank:
  "gen_next tr g = (fx, Some v, g') \<Longrightarrow> rank tr g' < rank tr g"
  by (cases g)
     (auto simp: gen_next_def handler_def dest: for_event_rank [where tr = tr]
           split: stream_outcome.splits option.splits prod.splits)

text \<open>Every value a consumer gets by calling \<open>next\<close> until \<open>StopIteration\<close>.\<close>

function drain :: "transport \<Rightarrow> generator \<Rightarrow> json list" where
  "drain tr g =
     (case gen_next tr g of
        (fx, None, g') \<Rightarrow> []
      | (fx, Some chunk, g') \<Rightarrow> chunk # drain tr g')"
  by pat_completeness auto
termination
  by (relation "measure (\<lambda>(tr, g). rank tr g)") (auto dest: gen_next_rank [OF sym])

declare drain.simps [simp del]

text \<open>Every effect the body performs over those calls.\<close>

function drain_effects :: "transport \<Rightarrow> generator \<Rightarrow> effect list" where
  "drain_effects tr g =
     (case gen_next tr g of
        (fx, None, g') \<Rightarrow> fx
      | (fx, Some chunk, g') \<Rightarrow> fx @ drain_effects tr g')"
  by pat_completeness auto
termination
  by (relation "measure (\<lambda>(tr, g). rank tr g)") (auto dest: gen_next_rank [OF sym])

declare drain_effects.simps [simp del]

section \<open>chat\<close>

text \<open>
  The \<open>for\<close> loop of \<open>chat\<close> over the generator: its effects, and the exception that
  leaves it, if any. \<open>sys.stdout.write\<close> raises \<open>TypeError\<close> on a value that is no \<open>str\<close>.
\<close>

function consume :: "transport \<Rightarrow> generator \<Rightarrow> effect list \<times> exn option" where
  "consume tr g =
     (case gen_next tr g of
        (fx, None, g') \<Rightarrow> (Pull # fx, None)
      | (fx, Some (JStr chunk), g') \<Rightarrow>
          (case consume tr g' of (rest, out) \<Rightarrow> (Pull # fx @ Write chunk # rest, out))
      | (fx, Some _, g') \<Rightarrow> (Pull # fx, Some TypeError))"
  by pat_completeness auto
termination
  by (relation "measure (\<lambda>(tr, g). rank tr g)") (auto dest: gen_next_rank [OF sym])

declare consume.simps [simp del]

text \<open>
  The runs of one turn: a trace, and the exception \<open>chat\<close> raises, if any. The main
  thread prints, submits both calls to the pool of two workers, waits for the first
  future, prints its result, waits for the second future and iterates over what it
  returned. The effects of a submitted call fall anywhere between its \<open>submit\<close> and the
  return of its \<open>result()\<close>: the first worker may have performed \<open>n\<close> of its effects when
  the second call is submitted, and the effects of the second call interleave
  (\<open>shuffles\<close>) with everything up to the second \<open>result()\<close>.
\<close>

definition chat_runs :: "transport \<Rightarrow> pystr \<Rightarrow> (effect list \<times> exn option) set" where
  "chat_runs tr user_query =
     (case create_prompts user_query of (micro_prompt, pro_prompt) \<Rightarrow>
      case invoke_nova_micro tr micro_prompt of (fx_micro, micro_response) \<Rightarrow>
      case stream_nova_pro pro_prompt of (fx_pro, pro_stream_generator) \<Rightarrow>
      case consume tr pro_stream_generator of (fx_loop, out) \<Rightarrow>
        (\<Union>n \<in> {0..length fx_micro}.
           (\<lambda>mid.
              ([Print (Line_Query user_query), Print Line_Rule, Submit_Micro]
               @ take n fx_micro @ [Submit_Pro] @ mid @ [Await_Pro] @ fx_loop
               @ (case out of None \<Rightarrow> [Print Line_Done, Print Line_Rule] | Some x \<Rightarrow> []),
               out))
           ` shuffles
               (drop n fx_micro
                @ [Await_Micro micro_response, Print Line_Micro_Header,
                   Print (Line_Micro_Response micro_response), Print Line_Pro_Header])
               fx_pro))"

section \<open>What the specification speaks of\<close>

text \<open>
  The answer text of a response envelope, as the specification describes it: the \<open>text\<close>
  of the first content block of the output message, when every step of that path is
  there and has the expected type.
\<close>

fun answer_text :: "json \<Rightarrow> pystr option" where
  "answer_text (JObj envelope) =
     (case map_of envelope (ascii ''output'') of
        Some (JObj output) \<Rightarrow>
          (case map_of output (ascii ''message'') of
             Some (JObj message) \<Rightarrow>
               (case map_of message (ascii ''content'') of
                  Some (JArr (JObj block # blocks)) \<Rightarrow>
                    (case map_of block (ascii ''text'') of
                       Some (JStr s) \<Rightarrow> Some s
                     | _ \<Rightarrow> None)
                | _ \<Rightarrow> None)
           | _ \<Rightarrow> None)
      | _ \<Rightarrow> None)"
| "answer_text _ = None"

text \<open>
  A transport error of the fast tier, in the specification's words: a timeout or
  connection error (the call or the read raises), a malformed response (no body, or a
  body that is no JSON), or a missing field (no answer text in the envelope).
\<close>

fun transport_error :: "model_outcome \<Rightarrow> bool" where
  "transport_error Call_Raises = True"
| "transport_error (Response None) = True"
| "transport_error (Response (Some Read_Raises)) = True"
| "transport_error (Response (Some (Read_Bytes None))) = True"
| "transport_error (Response (Some (Read_Bytes (Some response_body)))) =
     (answer_text response_body = None)"

text \<open>
  The text payload of a \<open>contentBlockDelta\<close> event, and the non-empty ones of a stream
  in their order. Non-empty is Python's truthiness, which for a \<open>str\<close> is being
  non-empty.
\<close>

fun delta_text :: "event \<Rightarrow> json option" where
  "delta_text (Chunk_Bytes (Some (JObj envelope))) =
     (case map_of envelope (ascii ''contentBlockDelta'') of
        Some (JObj block) \<Rightarrow>
          (case map_of block (ascii ''delta'') of
             Some (JObj delta) \<Rightarrow> map_of delta (ascii ''text'')
           | _ \<Rightarrow> None)
      | _ \<Rightarrow> None)"
| "delta_text _ = None"

definition text_payloads :: "event list \<Rightarrow> json list" where
  "text_payloads evs = filter truthy (List.map_filter delta_text evs)"

text \<open>An event on which the loop body raises; a stream no event of which does.\<close>

definition raises :: "event \<Rightarrow> bool" where
  "raises ev = (case process_event ev of Inl x \<Rightarrow> True | Inr r \<Rightarrow> False)"

definition error_free :: "event list \<Rightarrow> bool" where
  "error_free evs = list_all (\<lambda>ev. \<not> raises ev) evs"

text \<open>
  The events the specification calls malformed or lacking the expected shape, by what
  they are. \<open>skippable\<close>: the event has no chunk; or it decodes to an object without
  \<open>contentBlockDelta\<close>, or whose \<open>contentBlockDelta\<close> object has no \<open>delta\<close>, or whose
  \<open>delta\<close> object has no \<open>text\<close> or an empty one; or it decodes to a string or an
  array that does not contain \<open>contentBlockDelta\<close>. \<open>fatal\<close>: the chunk has no bytes;
  or the bytes cannot be decoded; or they decode to \<open>null\<close>, a boolean or a number, or
  to a string or an array that contains \<open>contentBlockDelta\<close>; or the value of
  \<open>contentBlockDelta\<close> or of \<open>delta\<close> is not an object.
\<close>

fun skippable :: "event \<Rightarrow> bool" where
  "skippable No_Chunk = True"
| "skippable (Chunk_Bytes (Some (JObj envelope))) =
     (case map_of envelope (ascii ''contentBlockDelta'') of
        None \<Rightarrow> True
      | Some (JObj block) \<Rightarrow>
          (case map_of block (ascii ''delta'') of
             None \<Rightarrow> True
           | Some (JObj delta) \<Rightarrow>
               (case map_of delta (ascii ''text'') of
                  None \<Rightarrow> True
                | Some v \<Rightarrow> \<not> truthy v)
           | Some _ \<Rightarrow> False)
      | Some _ \<Rightarrow> False)"
| "skippable (Chunk_Bytes (Some (JArr xs))) = (JStr (ascii ''contentBlockDelta'') \<notin> set xs)"
| "skippable (Chunk_Bytes (Some (JStr s))) = (\<not> sublist (ascii ''contentBlockDelta'') s)"
| "skippable _ = False"

fun fatal :: "event \<Rightarrow> bool" where
  "fatal No_Chunk = False"
| "fatal Chunk_No_Bytes = True"
| "fatal (Chunk_Bytes None) = True"
| "fatal (Chunk_Bytes (Some (JObj envelope))) =
     (case map_of envelope (ascii ''contentBlockDelta'') of
        None \<Rightarrow> False
      | Some (JObj block) \<Rightarrow>
          (case map_of block (ascii ''delta'') of
             None \<Rightarrow> False
           | Some (JObj delta) \<Rightarrow> False
           | Some _ \<Rightarrow> True)
      | Some _ \<Rightarrow> True)"
| "fatal (Chunk_Bytes (Some (JArr xs))) = (JStr (ascii ''contentBlockDelta'') \<in> set xs)"
| "fatal (Chunk_Bytes (Some (JStr s))) = sublist (ascii ''contentBlockDelta'') s"
| "fatal (Chunk_Bytes (Some _)) = True"

text \<open>Readings of a trace and of the yielded values.\<close>

fun deep_tier :: "effect \<Rightarrow> bool" where
  "deep_tier (Invoke_Stream req) = True"
| "deep_tier Stream_Read = True"
| "deep_tier _ = False"

fun consumption :: "effect \<Rightarrow> bool" where
  "consumption Pull = True"
| "consumption (Write chunk) = True"
| "consumption _ = False"

fun micro_effect :: "effect \<Rightarrow> bool" where
  "micro_effect (Print Line_Micro_Calling) = True"
| "micro_effect (Print Line_Micro_Done) = True"
| "micro_effect (Print Line_Micro_Error) = True"
| "micro_effect (Invoke_Model req) = True"
| "micro_effect Body_Read = True"
| "micro_effect _ = False"

fun written :: "effect list \<Rightarrow> pystr list" where
  "written [] = []"
| "written (Write chunk # fx) = chunk # written fx"
| "written (x # fx) = written fx"

fun is_text :: "json \<Rightarrow> bool" where
  "is_text (JStr s) = True"
| "is_text _ = False"

fun text_of :: "json \<Rightarrow> pystr" where
  "text_of (JStr s) = s"
| "text_of _ = []"

text \<open>
  The values a generator standing in the loop goes on to yield, computed over the rest
  of the stream at once; \<open>drain_for_event\<close> below shows that \<open>drain\<close> gives exactly these.
\<close>

fun chunks :: "event list \<Rightarrow> stream_end \<Rightarrow> json list" where
  "chunks [] Exhausted = []"
| "chunks [] Raises = [JStr pro_fallback]"
| "chunks (ev # evs) e =
     (case process_event ev of
        Inl x \<Rightarrow> [JStr pro_fallback]
      | Inr None \<Rightarrow> chunks evs e
      | Inr (Some v) \<Rightarrow> v # chunks evs e)"

section \<open>Mock transports\<close>

text \<open>
  Transports that answer every request the same way, a well-formed fast-tier envelope
  and well-formed stream events, for the concrete runs below. \<open>hello_events\<close> is the
  stream of the specification's example: the fragments \<open>Hel\<close>, \<open>lo, \<close> and \<open>world!\<close>
  between two control events.
\<close>

definition mock_transport :: "model_outcome \<Rightarrow> stream_outcome \<Rightarrow> transport" where
  "mock_transport m s = \<lparr>invoke_model = (\<lambda>req. m), invoke_model_with_response_stream = (\<lambda>req. s)\<rparr>"

definition micro_reply :: "pystr \<Rightarrow> model_outcome" where
  "micro_reply s =
     Response (Some (Read_Bytes (Some
       (JObj [(ascii ''output'',
          JObj [(ascii ''message'',
            JObj [(ascii ''content'', JArr [JObj [(ascii ''text'', JStr s)]])])])]))))"

definition delta_event :: "pystr \<Rightarrow> event" where
  "delta_event s =
     Chunk_Bytes (Some
       (JObj [(ascii ''contentBlockDelta'',
          JObj [(ascii ''delta'', JObj [(ascii ''text'', JStr s)])])]))"

definition control_event :: "pystr \<Rightarrow> event" where
  "control_event kind = Chunk_Bytes (Some (JObj [(kind, JObj [])]))"

definition hello_events :: "event list" where
  "hello_events =
     [control_event (ascii ''messageStart''), delta_event (ascii ''Hel''),
      delta_event (ascii ''lo, ''), control_event (ascii ''contentBlockStop''),
      delta_event (ascii ''world!'')]"

definition hello_transport :: transport where
  "hello_transport =
     mock_transport (micro_reply (ascii '' ok ''))
       (Stream_Response (Some (hello_events, Exhausted)))"

definition hello_query :: pystr where
  "hello_query = ascii ''hi''"

definition micro_down_transport :: transport where
  "micro_down_transport =
     mock_transport Call_Raises (Stream_Response (Some (hello_events, Exhausted)))"

definition empty_reply_transport :: transport where
  "empty_reply_transport = mock_transport (micro_reply []) Stream_Call_Raises"

definition stream_transport :: "event list \<Rightarrow> stream_end \<Rightarrow> transport" where
  "stream_transport evs e =
     mock_transport (micro_reply (ascii ''ok'')) (Stream_Response (Some (evs, e)))"

definition stream_down_transport :: transport where
  "stream_down_transport = mock_transport (micro_reply (ascii ''ok'')) Stream_Call_Raises"

text \<open>One run of \<open>chat\<close> on \<open>hello_transport\<close>, written out.\<close>

definition hello_trace :: "effect list" where
  "hello_trace =
     [Print (Line_Query hello_query), Print Line_Rule, Submit_Micro,
      Print Line_Micro_Calling, Submit_Pro,
      Invoke_Model (micro_request (fst (create_prompts hello_query))), Body_Read,
      Print Line_Micro_Done,
      Await_Micro (ascii ''ok''), Print Line_Micro_Header,
      Print (Line_Micro_Response (ascii ''ok'')), Print Line_Pro_Header, Await_Pro,
      Pull, Print Line_Pro_Start,
      Invoke_Stream (pro_request (snd (create_prompts hello_query))),
      Stream_Read, Stream_Read, Write (ascii ''Hel''),
      Pull, Stream_Read, Write (ascii ''lo, ''),
      Pull, Stream_Read, Stream_Read, Write (ascii ''world!''),
      Pull, Stream_Read,
      Print Line_Done, Print Line_Rule]"

section \<open>The fast tier: auxiliary facts\<close>

lemma micro_completion_Some:
  "answer_text j = Some s \<Longrightarrow> micro_completion j = Inr (JStr s)"
  by (cases j)
     (auto simp: micro_completion_def bind_exn_def
           split: option.splits json.splits list.splits)

lemma subscript_key_Inr:
  "subscript_key v k = Inr x \<Longrightarrow> \<exists>kvs. v = JObj kvs \<and> map_of kvs k = Some x"
  by (cases v) (auto split: option.splits)

lemma subscript_zero_JStr:
  "subscript_zero (JStr s) = Inr x \<Longrightarrow> \<exists>c. x = JStr [c]"
  by (cases s) auto

lemma micro_completion_None:
  "answer_text j = None \<Longrightarrow> \<exists>e. bind_exn (micro_completion j) py_strip = Inl e"
  by (cases j)
     (auto simp: micro_completion_def bind_exn_def
           dest!: subscript_zero_JStr subscript_key_Inr
           split: option.splits json.splits list.splits sum.splits)

lemma micro_try_error:
  "transport_error (invoke_model tr req) \<Longrightarrow> \<exists>fx e. micro_try tr req = (fx, Inl e)"
proof (cases "invoke_model tr req" rule: transport_error.cases)
  case (5 response_body)
  assume "transport_error (invoke_model tr req)"
  with 5 have "answer_text response_body = None" by simp
  from micro_completion_None [OF this] 5 show ?thesis
    by (auto simp: micro_try_def bind_exn_def split: sum.splits)
qed (simp_all add: micro_try_def)

lemma invoke_nova_micro_effects: "list_all micro_effect (fst (invoke_nova_micro tr p))"
  by (simp add: invoke_nova_micro_def micro_try_def
        split: model_outcome.splits option.splits body_read.splits sum.splits)

lemma micro_effect_not_deep: "micro_effect x \<Longrightarrow> \<not> deep_tier x \<and> \<not> consumption x"
  by (cases x rule: micro_effect.cases) simp_all

lemma micro_effects_not_deep:
  "list_all micro_effect xs \<Longrightarrow> list_all (\<lambda>x. \<not> deep_tier x \<and> \<not> consumption x) xs"
  by (induction xs) (simp_all add: micro_effect_not_deep)

lemma rev_ends:
  "rev (dropWhile P (rev d)) @ rev (takeWhile P (rev d)) = d"
proof -
  have "rev (dropWhile P (rev d)) @ rev (takeWhile P (rev d))
      = rev (takeWhile P (rev d) @ dropWhile P (rev d))"
    by (simp only: rev_append)
  also have "\<dots> = rev (rev d)"
    by (simp only: takeWhile_dropWhile_id)
  finally show ?thesis by simp
qed

lemma strip_decomp:
  "\<exists>l r. s = l @ strip s @ r \<and> list_all py_isspace l \<and> list_all py_isspace r"
proof -
  define d where "d = dropWhile py_isspace s"
  have s: "s = takeWhile py_isspace s @ d"
    by (simp add: d_def)
  have d: "d = strip s @ rev (takeWhile py_isspace (rev d))"
    using rev_ends [of py_isspace d] by (simp add: strip_def d_def)
  have l: "list_all py_isspace (takeWhile py_isspace s)"
    by (simp add: list_all_iff) (meson set_takeWhileD)
  have r: "list_all py_isspace (rev (takeWhile py_isspace (rev d)))"
    by (simp add: list_all_iff) (meson set_takeWhileD)
  from s d have "s = takeWhile py_isspace s @ strip s @ rev (takeWhile py_isspace (rev d))"
    by simp
  with l r show ?thesis by blast
qed

lemma strip_ends:
  assumes "strip s \<noteq> []"
  shows "\<not> py_isspace (hd (strip s))" and "\<not> py_isspace (last (strip s))"
proof -
  define d where "d = dropWhile py_isspace s"
  have st: "strip s = rev (dropWhile py_isspace (rev d))"
    by (simp add: strip_def d_def)
  with assms have ne: "dropWhile py_isspace (rev d) \<noteq> []" by simp
  then show "\<not> py_isspace (last (strip s))"
    by (simp add: st last_rev hd_dropWhile)
  have d: "d = strip s @ rev (takeWhile py_isspace (rev d))"
    using rev_ends [of py_isspace d] by (simp add: st)
  with assms have "hd d = hd (strip s)" and "d \<noteq> []"
    by (metis hd_append2, metis append_is_Nil_conv)
  then show "\<not> py_isspace (hd (strip s))"
    using hd_dropWhile [of py_isspace s] by (simp add: d_def)
qed

section \<open>The generator: auxiliary facts\<close>

lemma for_event_effects:
  "for_event fx evs e = (fx @ fst (for_event [] evs e), snd (for_event [] evs e))"
proof (induction evs arbitrary: fx)
  case Nil
  then show ?case by (cases e) (simp_all add: handler_def)
next
  case (Cons ev evs)
  from Cons [of "fx @ [Stream_Read]"] Cons [of "[Stream_Read]"]
  show ?case
    by (simp add: handler_def split: sum.splits option.splits)
qed

lemma gen_next_Created:
  "\<exists>fx. fst (gen_next tr (Created p))
     = Print Line_Pro_Start # Invoke_Stream (pro_request p) # fx"
  by (cases "invoke_model_with_response_stream tr (pro_request p)")
     (auto simp: gen_next_def handler_def for_event_effects [of "[a, b]" for a b]
           split: option.splits)

lemma drain_After_Fallback: "drain tr After_Fallback = []"
  by (simp add: drain.simps gen_next_def)

lemma drain_for_event:
  "(case for_event fx evs e of
      (fx', None, g') \<Rightarrow> []
    | (fx', Some chunk, g') \<Rightarrow> chunk # drain tr g') = chunks evs e"
proof (induction evs arbitrary: fx)
  case Nil
  then show ?case
    by (cases e) (simp_all add: handler_def drain_After_Fallback)
next
  case (Cons ev evs)
  have "drain tr (Suspended evs e) = chunks evs e"
    using Cons [of "[]"] by (simp add: drain.simps [of tr "Suspended evs e"] gen_next_def)
  with Cons show ?case
    by (simp add: handler_def drain_After_Fallback split: sum.splits option.splits)
qed

lemma drain_Created:
  "drain tr (Created p) =
     (case invoke_model_with_response_stream tr (pro_request p) of
        Stream_Call_Raises \<Rightarrow> [JStr pro_fallback]
      | Stream_Response None \<Rightarrow> []
      | Stream_Response (Some (evs, e)) \<Rightarrow> chunks evs e)"
  by (simp add: drain.simps [of tr "Created p"] gen_next_def handler_def
        drain_After_Fallback drain_for_event
      split: stream_outcome.splits option.splits prod.splits)

lemma process_event_delta_text:
  "process_event ev = Inr r \<Longrightarrow>
   r = (case delta_text ev of None \<Rightarrow> None | Some v \<Rightarrow> if truthy v then Some v else None)"
  by (cases ev rule: delta_text.cases)
     (auto simp: process_event_def bind_exn_def
           dest!: subscript_key_Inr
           split: option.splits json.splits sum.splits if_splits)

lemma process_undecodable: "process_event (Chunk_Bytes None) = Inl ValueError"
  by (simp add: process_event_def)

lemma raises_undecodable: "raises (Chunk_Bytes None)"
  by (simp add: raises_def process_undecodable)

lemma process_object:
  "process_event (Chunk_Bytes (Some (JObj envelope))) =
     (case map_of envelope (ascii ''contentBlockDelta'') of
        None \<Rightarrow> Inr None
      | Some block \<Rightarrow>
          bind_exn (dict_get block (ascii ''delta'') (JObj [])) (\<lambda>delta.
          bind_exn (dict_get delta (ascii ''text'') (JStr [])) (\<lambda>text_content.
            Inr (if truthy text_content then Some text_content else None))))"
  by (simp add: process_event_def bind_exn_def split: option.split)

lemma delta_get_text:
  "bind_exn (dict_get delta (ascii ''text'') (JStr [])) (\<lambda>text_content.
     Inr (if truthy text_content then Some text_content else None))
   = (case delta of
        JObj d \<Rightarrow>
          Inr (case map_of d (ascii ''text'') of
                 None \<Rightarrow> None
               | Some v \<Rightarrow> if truthy v then Some v else None)
      | _ \<Rightarrow> Inl AttributeError)"
  by (cases delta) (simp_all add: bind_exn_def split: option.split)

lemma block_get_delta:
  "bind_exn (dict_get block (ascii ''delta'') (JObj [])) f
   = (case block of
        JObj b \<Rightarrow> (case map_of b (ascii ''delta'') of None \<Rightarrow> f (JObj []) | Some delta \<Rightarrow> f delta)
      | _ \<Rightarrow> Inl AttributeError)"
  by (cases block) (simp_all add: bind_exn_def split: option.split)

lemma process_object_cases:
  "process_event (Chunk_Bytes (Some (JObj envelope))) =
     (case map_of envelope (ascii ''contentBlockDelta'') of
        None \<Rightarrow> Inr None
      | Some block \<Rightarrow>
          (case block of
             JObj b \<Rightarrow>
               (case map_of b (ascii ''delta'') of
                  None \<Rightarrow> Inr None
                | Some delta \<Rightarrow>
                    (case delta of
                       JObj d \<Rightarrow>
                         Inr (case map_of d (ascii ''text'') of
                                None \<Rightarrow> None
                              | Some v \<Rightarrow> if truthy v then Some v else None)
                     | _ \<Rightarrow> Inl AttributeError))
           | _ \<Rightarrow> Inl AttributeError))"
  by (simp add: process_object block_get_delta delta_get_text
        split: option.split json.split)

lemma skippable_object:
  "skippable (Chunk_Bytes (Some (JObj envelope)))
     = (process_event (Chunk_Bytes (Some (JObj envelope))) = Inr None)"
  by (simp add: process_object_cases split: option.split json.split)

lemma fatal_object:
  "fatal (Chunk_Bytes (Some (JObj envelope)))
     = (\<exists>x. process_event (Chunk_Bytes (Some (JObj envelope))) = Inl x)"
  by (simp add: process_object_cases split: option.split json.split)

lemma process_other:
  "process_event No_Chunk = Inr None"
  "process_event Chunk_No_Bytes = Inl AttributeError"
  "process_event (Chunk_Bytes (Some JNull)) = Inl TypeError"
  "process_event (Chunk_Bytes (Some (JBool b))) = Inl TypeError"
  "process_event (Chunk_Bytes (Some (JInt n))) = Inl TypeError"
  "process_event (Chunk_Bytes (Some (JFloat x))) = Inl TypeError"
  "process_event (Chunk_Bytes (Some (JStr s))) =
     (if sublist (ascii ''contentBlockDelta'') s then Inl TypeError else Inr None)"
  "process_event (Chunk_Bytes (Some (JArr xs))) =
     (if JStr (ascii ''contentBlockDelta'') \<in> set xs then Inl TypeError else Inr None)"
  by (simp_all add: process_event_def bind_exn_def)

lemma skippable_iff: "skippable ev = (process_event ev = Inr None)"
proof (cases ev)
  case (Chunk_Bytes decoded)
  show ?thesis
  proof (cases decoded)
    case None
    with Chunk_Bytes show ?thesis by (simp add: process_undecodable)
  next
    case (Some chunk_obj)
    show ?thesis
    proof (cases chunk_obj)
      case (JObj envelope)
      with Chunk_Bytes Some show ?thesis
        by (simp only: skippable_object)
    qed (use Chunk_Bytes Some in \<open>simp_all add: process_other\<close>)
  qed
qed (simp_all add: process_other)

lemma fatal_iff: "fatal ev = raises ev"
proof (cases ev)
  case (Chunk_Bytes decoded)
  show ?thesis
  proof (cases decoded)
    case None
    with Chunk_Bytes show ?thesis by (simp add: raises_undecodable)
  next
    case (Some chunk_obj)
    show ?thesis
    proof (cases chunk_obj)
      case (JObj envelope)
      have "raises ev = (\<exists>x. process_event ev = Inl x)"
        by (simp add: raises_def split: sum.split)
      with Chunk_Bytes Some JObj show ?thesis
        by (simp only: fatal_object)
    qed (use Chunk_Bytes Some in \<open>simp_all add: raises_def process_other\<close>)
  qed
qed (simp_all add: raises_def process_other)

lemma skippable_process: "skippable ev \<Longrightarrow> process_event ev = Inr None"
  by (simp add: skippable_iff)

lemma drain_effects_After_Fallback: "drain_effects tr After_Fallback = []"
  by (simp add: drain_effects.simps gen_next_def)

lemma reads_for_event:
  "count_list
     (case for_event fx evs e of
        (fx', None, g') \<Rightarrow> fx'
      | (fx', Some chunk, g') \<Rightarrow> fx' @ drain_effects tr g') Stream_Read
   = count_list fx Stream_Read + Suc (length (takeWhile (\<lambda>ev. \<not> raises ev) evs))"
proof (induction evs arbitrary: fx)
  case Nil
  then show ?case
    by (cases e) (simp_all add: handler_def drain_effects_After_Fallback)
next
  case (Cons ev evs)
  have "count_list (drain_effects tr (Suspended evs e)) Stream_Read
        = Suc (length (takeWhile (\<lambda>ev. \<not> raises ev) evs))"
    using Cons [of "[]"]
    by (simp add: drain_effects.simps [of tr "Suspended evs e"] gen_next_def)
  with Cons [of "fx @ [Stream_Read]"] show ?case
    by (simp add: handler_def drain_effects_After_Fallback raises_def
          split: sum.splits option.splits)
qed

lemma reads_Created:
  "invoke_model_with_response_stream tr (pro_request p) = Stream_Response (Some (evs, e)) \<Longrightarrow>
   count_list (drain_effects tr (Created p)) Stream_Read
     = Suc (length (takeWhile (\<lambda>ev. \<not> raises ev) evs))"
  using reads_for_event
    [where fx = "[Print Line_Pro_Start, Invoke_Stream (pro_request p)]"
       and evs = evs and e = e and tr = tr]
  by (simp add: drain_effects.simps [of tr "Created p"] gen_next_def)

lemma takeWhile_error_free:
  "error_free evs \<Longrightarrow> raises ev \<Longrightarrow>
   takeWhile (\<lambda>ev. \<not> raises ev) (evs @ ev # rest) = evs"
  by (induction evs) (simp_all add: error_free_def)

lemma text_payloads_Cons:
  "text_payloads (ev # evs) =
     (case delta_text ev of
        None \<Rightarrow> text_payloads evs
      | Some v \<Rightarrow> if truthy v then v # text_payloads evs else text_payloads evs)"
  by (simp add: text_payloads_def List.map_filter_simps split: option.splits)

lemma text_payloads_Nil: "text_payloads [] = []"
  by (simp add: text_payloads_def List.map_filter_simps)

lemma chunks_error_free:
  "error_free evs \<Longrightarrow>
   chunks evs e = text_payloads evs @ (case e of Exhausted \<Rightarrow> [] | Raises \<Rightarrow> [JStr pro_fallback])"
proof (induction evs)
  case Nil
  then show ?case by (cases e) (simp_all add: text_payloads_Nil)
next
  case (Cons ev evs)
  then obtain r where r: "process_event ev = Inr r" and ef: "error_free evs"
    by (auto simp: error_free_def raises_def split: sum.splits)
  from process_event_delta_text [OF r] r Cons.IH [OF ef] show ?case
    by (auto simp: text_payloads_Cons split: option.splits)
qed

lemma chunks_raise:
  "error_free evs \<Longrightarrow> raises ev \<Longrightarrow>
   chunks (evs @ ev # rest) e = text_payloads evs @ [JStr pro_fallback]"
proof (induction evs)
  case Nil
  then show ?case
    by (simp add: text_payloads_Nil raises_def split: sum.splits)
next
  case (Cons a evs)
  then obtain r where r: "process_event a = Inr r" and ef: "error_free evs"
    by (auto simp: error_free_def raises_def split: sum.splits)
  from process_event_delta_text [OF r] r Cons.IH [OF ef Cons.prems(2)] show ?case
    by (auto simp: text_payloads_Cons split: option.splits)
qed

lemma chunks_skip:
  "process_event ev = Inr None \<Longrightarrow> chunks (evs @ ev # rest) e = chunks (evs @ rest) e"
  by (induction evs) (simp_all split: sum.splits option.splits)

lemma written_append: "written (xs @ ys) = written xs @ written ys"
  by (induction xs rule: written.induct) simp_all

lemma written_for_event: "written (fst (for_event fx evs e)) = written fx"
  by (induction fx evs e rule: for_event.induct)
     (simp_all add: handler_def written_append split: sum.splits option.splits)

lemma written_gen_next: "written (fst (gen_next tr g)) = []"
  by (cases g)
     (simp_all add: gen_next_def handler_def written_for_event
        split: stream_outcome.splits option.splits prod.splits)

lemma consume_Created:
  "\<exists>rest. fst (consume tr (Created p))
     = Pull # Print Line_Pro_Start # Invoke_Stream (pro_request p) # rest"
proof -
  obtain fx r g' where g: "gen_next tr (Created p) = (fx, r, g')"
    by (cases "gen_next tr (Created p)") auto
  then obtain fx' where fx: "fx = Print Line_Pro_Start # Invoke_Stream (pro_request p) # fx'"
    by (cases "invoke_model_with_response_stream tr (pro_request p)")
       (auto simp: gen_next_def handler_def for_event_effects [of "[a, b]" for a b]
             split: option.splits)
  show ?thesis
    by (simp add: consume.simps [of tr "Created p"] g fx
          split: option.splits json.splits prod.splits)
qed

lemma consume_text:
  "list_all is_text (drain tr g) \<Longrightarrow>
   snd (consume tr g) = None \<and> written (fst (consume tr g)) = map text_of (drain tr g)"
proof (induction tr g rule: drain.induct)
  case (1 tr g)
  obtain fx r g' where g: "gen_next tr g = (fx, r, g')"
    by (cases "gen_next tr g") auto
  have w: "written fx = []"
    using written_gen_next [of tr g] g by simp
  show ?case
  proof (cases r)
    case None
    with g w show ?thesis
      by (simp add: drain.simps [of tr g] consume.simps [of tr g])
  next
    case (Some v)
    with "1.prems" g obtain s where v: "v = JStr s" and rest: "list_all is_text (drain tr g')"
      by (cases v) (auto simp: drain.simps [of tr g])
    from "1.IH" [OF g [symmetric] refl Some rest] g Some v w show ?thesis
      by (auto simp: drain.simps [of tr g] consume.simps [of tr g] written_append
            split: prod.splits)
  qed
qed

section \<open>The runs of chat: auxiliary facts\<close>

lemma chat_runs_iff:
  "(t, out) \<in> chat_runs tr q \<longleftrightarrow>
     (\<exists>n \<le> length (fst (invoke_nova_micro tr (fst (create_prompts q)))).
        t = [Print (Line_Query q), Print Line_Rule, Submit_Micro]
            @ take n (fst (invoke_nova_micro tr (fst (create_prompts q))))
            @ [Submit_Pro]
            @ drop n (fst (invoke_nova_micro tr (fst (create_prompts q))))
            @ [Await_Micro (snd (invoke_nova_micro tr (fst (create_prompts q)))),
               Print Line_Micro_Header,
               Print (Line_Micro_Response (snd (invoke_nova_micro tr (fst (create_prompts q))))),
               Print Line_Pro_Header, Await_Pro]
            @ fst (consume tr (Created (snd (create_prompts q))))
            @ (case snd (consume tr (Created (snd (create_prompts q)))) of
                 None \<Rightarrow> [Print Line_Done, Print Line_Rule]
               | Some x \<Rightarrow> [])
        \<and> out = snd (consume tr (Created (snd (create_prompts q)))))"
  by (auto simp: chat_runs_def stream_nova_pro_def split: prod.splits)

lemma chat_runs_nonempty: "chat_runs tr q \<noteq> {}"
proof -
  have "\<exists>t out. (t, out) \<in> chat_runs tr q"
    unfolding chat_runs_iff by blast
  then show ?thesis by blast
qed

lemma chat_run_shape:
  assumes "(t, out) \<in> chat_runs tr q"
  shows "\<exists>a b rest.
     t = [Print (Line_Query q), Print Line_Rule, Submit_Micro] @ a @ [Submit_Pro] @ b
         @ [Await_Micro (snd (invoke_nova_micro tr (fst (create_prompts q)))),
            Print Line_Micro_Header,
            Print (Line_Micro_Response (snd (invoke_nova_micro tr (fst (create_prompts q))))),
            Print Line_Pro_Header, Await_Pro, Pull, Print Line_Pro_Start,
            Invoke_Stream (pro_request (snd (create_prompts q)))]
         @ rest
     \<and> list_all micro_effect (a @ b)"
proof -
  let ?fx = "fst (invoke_nova_micro tr (fst (create_prompts q)))"
  obtain rest where rest: "fst (consume tr (Created (snd (create_prompts q))))
       = Pull # Print Line_Pro_Start # Invoke_Stream (pro_request (snd (create_prompts q))) # rest"
    using consume_Created by blast
  from assms obtain n where
    t: "t = [Print (Line_Query q), Print Line_Rule, Submit_Micro] @ take n ?fx @ [Submit_Pro]
            @ drop n ?fx
            @ [Await_Micro (snd (invoke_nova_micro tr (fst (create_prompts q)))),
               Print Line_Micro_Header,
               Print (Line_Micro_Response (snd (invoke_nova_micro tr (fst (create_prompts q))))),
               Print Line_Pro_Header, Await_Pro]
            @ fst (consume tr (Created (snd (create_prompts q))))
            @ (case snd (consume tr (Created (snd (create_prompts q)))) of
                 None \<Rightarrow> [Print Line_Done, Print Line_Rule]
               | Some x \<Rightarrow> [])"
    unfolding chat_runs_iff by blast
  have "list_all micro_effect (take n ?fx @ drop n ?fx)"
    using invoke_nova_micro_effects by simp
  with t rest show ?thesis
    by (intro exI [of _ "take n ?fx"] exI [of _ "drop n ?fx"]
          exI [of _ "rest @ (case snd (consume tr (Created (snd (create_prompts q)))) of
                 None \<Rightarrow> [Print Line_Done, Print Line_Rule] | Some x \<Rightarrow> [])"])
       (simp del: append_take_drop_id)
qed

section \<open>The mock transports evaluated\<close>

lemma invoke_nova_micro_reply:
  "invoke_nova_micro (mock_transport (micro_reply s) so) p =
     ([Print Line_Micro_Calling, Invoke_Model (micro_request p), Body_Read,
       Print Line_Micro_Done], strip s)"
  by (simp add: invoke_nova_micro_def micro_try_def mock_transport_def micro_reply_def
        micro_completion_def bind_exn_def ascii_def)

lemma strip_ok: "strip (ascii '' ok '') = ascii ''ok''"
  by (simp add: strip_def py_isspace_def ascii_def)

lemma invoke_nova_micro_hello:
  "invoke_nova_micro hello_transport p =
     ([Print Line_Micro_Calling, Invoke_Model (micro_request p), Body_Read,
       Print Line_Micro_Done], ascii ''ok'')"
  by (simp add: hello_transport_def invoke_nova_micro_reply strip_ok)

lemma answer_text_reply: "answer_text (JObj [(ascii ''output'',
          JObj [(ascii ''message'',
            JObj [(ascii ''content'', JArr [JObj [(ascii ''text'', JStr s)]])])])]) = Some s"
  by simp

lemma process_delta_event:
  "process_event (delta_event s) = Inr (if s = [] then None else Some (JStr s))"
  by (simp add: process_event_def delta_event_def bind_exn_def ascii_def)

lemma process_control_event:
  "kind \<noteq> ascii ''contentBlockDelta'' \<Longrightarrow> process_event (control_event kind) = Inr None"
  by (simp add: process_event_def control_event_def bind_exn_def)

lemma process_hello:
  "process_event (control_event (ascii ''messageStart'')) = Inr None"
  "process_event (control_event (ascii ''contentBlockStop'')) = Inr None"
  "process_event (delta_event (ascii ''Hel'')) = Inr (Some (JStr (ascii ''Hel'')))"
  "process_event (delta_event (ascii ''lo, '')) = Inr (Some (JStr (ascii ''lo, '')))"
  "process_event (delta_event (ascii ''world!'')) = Inr (Some (JStr (ascii ''world!'')))"
  by (simp_all add: process_delta_event process_control_event ascii_def)

lemma hello_response:
  "invoke_model_with_response_stream hello_transport req
     = Stream_Response (Some (hello_events, Exhausted))"
  by (simp add: hello_transport_def mock_transport_def)

lemma stream_transport_response:
  "invoke_model_with_response_stream (stream_transport evs e) req
     = Stream_Response (Some (evs, e))"
  by (simp add: stream_transport_def mock_transport_def)

lemma error_free_hello: "error_free hello_events"
  by (simp add: error_free_def raises_def hello_events_def process_hello)

lemma text_payloads_hello:
  "text_payloads hello_events
     = [JStr (ascii ''Hel''), JStr (ascii ''lo, ''), JStr (ascii ''world!'')]"
  by (simp add: hello_events_def text_payloads_Cons text_payloads_Nil delta_event_def
        control_event_def ascii_def)

lemma error_free_deltas: "error_free [delta_event (ascii ''Hel'')]"
  by (simp add: error_free_def raises_def process_delta_event)

lemma text_payloads_Hel: "text_payloads [delta_event (ascii ''Hel'')] = [JStr (ascii ''Hel'')]"
  by (simp add: text_payloads_Cons text_payloads_Nil delta_event_def ascii_def)

lemma error_free_control: "error_free [control_event (ascii ''messageStart'')]"
  by (simp add: error_free_def raises_def process_hello)

lemma text_payloads_control: "text_payloads [control_event (ascii ''messageStart'')] = []"
  by (simp add: text_payloads_Cons text_payloads_Nil control_event_def ascii_def)

lemma skippable_control: "skippable (control_event (ascii ''messageStop''))"
  by (simp add: control_event_def ascii_def)

lemma skippable_ping: "skippable (Chunk_Bytes (Some (JStr (ascii ''ping''))))"
  by (simp add: ascii_def sublist_code)

lemma consume_hello:
  "consume hello_transport (Created p) =
     ([Pull, Print Line_Pro_Start, Invoke_Stream (pro_request p),
       Stream_Read, Stream_Read, Write (ascii ''Hel''),
       Pull, Stream_Read, Write (ascii ''lo, ''),
       Pull, Stream_Read, Stream_Read, Write (ascii ''world!''),
       Pull, Stream_Read], None)"
  by (simp add: consume.simps gen_next_def hello_transport_def mock_transport_def
        hello_events_def process_hello)

lemma hello_trace_run: "(hello_trace, None) \<in> chat_runs hello_transport hello_query"
  unfolding chat_runs_iff
  by (rule exI [of _ 1])
     (simp add: hello_trace_def consume_hello invoke_nova_micro_hello)

section \<open>Properties of create\_prompts\<close>

text \<open>
  C8. \<open>create_prompts\<close> is a function of the query alone: equal queries give equal
  pairs of prompts. Each prompt is a fixed template around the query, which it holds
  unchanged, so the query is a contiguous part of both prompts whatever it contains
  (quotation marks and line breaks included).
\<close>

theorem create_prompts_embeds_query:
  "(\<forall>q q'. q = q' \<longrightarrow> create_prompts q = create_prompts q')
   \<and> (\<forall>q. create_prompts q = (micro_prefix @ q @ micro_suffix, pro_prefix @ q @ pro_suffix))
   \<and> (\<forall>q. sublist q (fst (create_prompts q)) \<and> sublist q (snd (create_prompts q)))"
  by (simp add: create_prompts_def sublist_def) blast

theorem create_prompts_embeds_query_witness:
  "create_prompts (ascii ''a \"b\"'') = create_prompts [97, 32, 34, 98, 34]
   \<and> create_prompts [97, 32, 34, 98, 34]
       = (micro_prefix @ [97, 32, 34, 98, 34] @ micro_suffix,
          pro_prefix @ [97, 32, 34, 98, 34] @ pro_suffix)
   \<and> sublist [97, 32, 34, 98, 34] (fst (create_prompts [97, 32, 34, 98, 34]))
   \<and> sublist [97, 32, 34, 98, 34] (snd (create_prompts [97, 32, 34, 98, 34]))"
proof -
  have same: "ascii ''a \"b\"'' = [97, 32, 34, 98, 34]"
    by (simp add: ascii_def)
  from create_prompts_embeds_query
  have "ascii ''a \"b\"'' = [97, 32, 34, 98, 34]
          \<longrightarrow> create_prompts (ascii ''a \"b\"'') = create_prompts [97, 32, 34, 98, 34]"
    and "create_prompts [97, 32, 34, 98, 34]
       = (micro_prefix @ [97, 32, 34, 98, 34] @ micro_suffix,
          pro_prefix @ [97, 32, 34, 98, 34] @ pro_suffix)"
    and "sublist [97, 32, 34, 98, 34] (fst (create_prompts [97, 32, 34, 98, 34]))
         \<and> sublist [97, 32, 34, 98, 34] (snd (create_prompts [97, 32, 34, 98, 34]))"
    by blast+
  with same show ?thesis by blast
qed

section \<open>Properties of invoke\_nova\_micro\<close>

text \<open>
  C5. When the fast-tier call meets a transport error (the call or the read raises, the
  response has no body or one that is no JSON, or the answer text is missing from the
  envelope), \<open>invoke_nova_micro\<close> returns the fixed degraded-service message, which is not
  empty, and raises nothing. The turn goes on: every run of \<open>chat\<close> prints that message
  as the fast result and afterwards pulls from the generator, which issues the deep-tier
  request.
\<close>

theorem invoke_nova_micro_fail_soft:
  assumes "transport_error (invoke_model tr (micro_request p))"
  shows "snd (invoke_nova_micro tr p) = micro_fallback
     \<and> micro_fallback \<noteq> []
     \<and> (\<forall>q t out. p = fst (create_prompts q) \<and> (t, out) \<in> chat_runs tr q \<longrightarrow>
          (\<exists>pre post.
             t = pre @ Print (Line_Micro_Response micro_fallback) # post
             \<and> Invoke_Stream (pro_request (snd (create_prompts q))) \<in> set post
             \<and> Pull \<in> set post))"
proof -
  from micro_try_error [OF assms] obtain fx e where
    "micro_try tr (micro_request p) = (fx, Inl e)"
    by blast
  then have r: "snd (invoke_nova_micro tr p) = micro_fallback"
    by (simp add: invoke_nova_micro_def)
  have ne: "micro_fallback \<noteq> []"
    by (simp add: micro_fallback_def)
  have "\<exists>pre post.
          t = pre @ Print (Line_Micro_Response micro_fallback) # post
          \<and> Invoke_Stream (pro_request (snd (create_prompts q))) \<in> set post
          \<and> Pull \<in> set post"
    if p: "p = fst (create_prompts q)" and run: "(t, out) \<in> chat_runs tr q" for q t out
  proof -
    from chat_run_shape [OF run] r p obtain a b rest where
      t: "t = [Print (Line_Query q), Print Line_Rule, Submit_Micro] @ a @ [Submit_Pro] @ b
           @ [Await_Micro micro_fallback, Print Line_Micro_Header,
              Print (Line_Micro_Response micro_fallback),
              Print Line_Pro_Header, Await_Pro, Pull, Print Line_Pro_Start,
              Invoke_Stream (pro_request (snd (create_prompts q)))]
           @ rest"
      by auto
    show ?thesis
      by (intro exI [of _ "[Print (Line_Query q), Print Line_Rule, Submit_Micro] @ a
              @ [Submit_Pro] @ b @ [Await_Micro micro_fallback, Print Line_Micro_Header]"]
            exI [of _ "[Print Line_Pro_Header, Await_Pro, Pull, Print Line_Pro_Start,
              Invoke_Stream (pro_request (snd (create_prompts q)))] @ rest"])
         (use t in simp)
  qed
  with r ne show ?thesis by blast
qed

theorem invoke_nova_micro_fail_soft_witness:
  "transport_error
     (invoke_model micro_down_transport (micro_request (fst (create_prompts hello_query))))
   \<and> invoke_nova_micro micro_down_transport (fst (create_prompts hello_query))
     = ([Print Line_Micro_Calling,
         Invoke_Model (micro_request (fst (create_prompts hello_query))),
         Print Line_Micro_Error], micro_fallback)
   \<and> length micro_fallback = 28
   \<and> (\<exists>t out pre post.
        (t, out) \<in> chat_runs micro_down_transport hello_query
        \<and> t = pre @ Print (Line_Micro_Response micro_fallback) # post
        \<and> Invoke_Stream (pro_request (snd (create_prompts hello_query))) \<in> set post
        \<and> Pull \<in> set post)"
proof -
  have err: "transport_error
     (invoke_model micro_down_transport (micro_request (fst (create_prompts hello_query))))"
    by (simp add: micro_down_transport_def mock_transport_def)
  have run: "invoke_nova_micro micro_down_transport (fst (create_prompts hello_query))
     = ([Print Line_Micro_Calling,
         Invoke_Model (micro_request (fst (create_prompts hello_query))),
         Print Line_Micro_Error], micro_fallback)"
    by (simp add: invoke_nova_micro_def micro_try_def micro_down_transport_def
          mock_transport_def)
  obtain t out where mem: "(t, out) \<in> chat_runs micro_down_transport hello_query"
    using chat_runs_nonempty [of micro_down_transport hello_query] by auto
  from invoke_nova_micro_fail_soft [OF err] mem
  have "\<exists>pre post.
        t = pre @ Print (Line_Micro_Response micro_fallback) # post
        \<and> Invoke_Stream (pro_request (snd (create_prompts hello_query))) \<in> set post
        \<and> Pull \<in> set post"
    by blast
  with mem have "\<exists>t out pre post.
        (t, out) \<in> chat_runs micro_down_transport hello_query
        \<and> t = pre @ Print (Line_Micro_Response micro_fallback) # post
        \<and> Invoke_Stream (pro_request (snd (create_prompts hello_query))) \<in> set post
        \<and> Pull \<in> set post"
    by blast
  moreover have "length micro_fallback = 28"
    by (simp add: micro_fallback_def)
  ultimately show ?thesis
    using err run by blast
qed

text \<open>
  C9. When the call succeeds and the envelope holds an answer text \<open>s\<close>,
  \<open>invoke_nova_micro\<close> returns \<open>s\<close> stripped: \<open>s\<close> is the result between a run of
  whitespace on the left and one on the right, and a non-empty result neither starts nor
  ends with whitespace. No error line is printed. An empty answer text is returned as
  the empty string, by the same path.
\<close>

theorem invoke_nova_micro_returns_stripped_text:
  assumes "invoke_model tr (micro_request p) = Response (Some (Read_Bytes (Some response_body)))"
    and "answer_text response_body = Some s"
  shows "invoke_nova_micro tr p
       = ([Print Line_Micro_Calling, Invoke_Model (micro_request p), Body_Read,
           Print Line_Micro_Done], strip s)
     \<and> (\<exists>l r. s = l @ strip s @ r \<and> list_all py_isspace l \<and> list_all py_isspace r)
     \<and> (strip s \<noteq> [] \<longrightarrow> \<not> py_isspace (hd (strip s)) \<and> \<not> py_isspace (last (strip s)))
     \<and> (s = [] \<longrightarrow> snd (invoke_nova_micro tr p) = [])"
proof -
  have run: "invoke_nova_micro tr p
       = ([Print Line_Micro_Calling, Invoke_Model (micro_request p), Body_Read,
           Print Line_Micro_Done], strip s)"
    using assms(1) micro_completion_Some [OF assms(2)]
    by (simp add: invoke_nova_micro_def micro_try_def)
  have "s = [] \<longrightarrow> snd (invoke_nova_micro tr p) = []"
    by (simp add: run strip_def)
  with run strip_decomp [of s] strip_ends [of s] show ?thesis
    by blast
qed

theorem invoke_nova_micro_returns_stripped_text_witness:
  "snd (invoke_nova_micro hello_transport (fst (create_prompts hello_query))) = ascii ''ok''
   \<and> invoke_nova_micro empty_reply_transport (fst (create_prompts hello_query))
     = ([Print Line_Micro_Calling,
         Invoke_Model (micro_request (fst (create_prompts hello_query))), Body_Read,
         Print Line_Micro_Done], [])"
proof -
  have a: "invoke_model hello_transport (micro_request (fst (create_prompts hello_query)))
     = Response (Some (Read_Bytes (Some (JObj [(ascii ''output'',
          JObj [(ascii ''message'',
            JObj [(ascii ''content'',
              JArr [JObj [(ascii ''text'', JStr (ascii '' ok ''))]])])])]))))"
    by (simp add: hello_transport_def mock_transport_def micro_reply_def)
  have b: "invoke_model empty_reply_transport (micro_request (fst (create_prompts hello_query)))
     = Response (Some (Read_Bytes (Some (JObj [(ascii ''output'',
          JObj [(ascii ''message'',
            JObj [(ascii ''content'', JArr [JObj [(ascii ''text'', JStr [])]])])])]))))"
    by (simp add: empty_reply_transport_def mock_transport_def micro_reply_def)
  have e: "strip [] = []"
    by (simp add: strip_def)
  from invoke_nova_micro_returns_stripped_text [OF a answer_text_reply]
  have 1: "invoke_nova_micro hello_transport (fst (create_prompts hello_query))
       = ([Print Line_Micro_Calling,
           Invoke_Model (micro_request (fst (create_prompts hello_query))), Body_Read,
           Print Line_Micro_Done], strip (ascii '' ok ''))"
    by blast
  from invoke_nova_micro_returns_stripped_text [OF b answer_text_reply]
  have 2: "invoke_nova_micro empty_reply_transport (fst (create_prompts hello_query))
       = ([Print Line_Micro_Calling,
           Invoke_Model (micro_request (fst (create_prompts hello_query))), Body_Read,
           Print Line_Micro_Done], strip [])"
    by blast
  from 1 2 show ?thesis
    by (simp only: strip_ok e snd_conv simp_thms)
qed

section \<open>Properties of stream\_nova\_pro\<close>

text \<open>
  C7. On a stream that ends normally and no event of which makes the loop raise, the
  generator yields exactly the non-empty text payloads of the \<open>contentBlockDelta\<close>
  events, in their order; no other event contributes, and the empty string is never
  yielded. When the payloads are strings, \<open>chat\<close> writes them in that order and raises
  nothing, so what it writes concatenates to the concatenation of the payloads.
\<close>

theorem stream_nova_pro_yields_text_payloads:
  assumes "invoke_model_with_response_stream tr (pro_request p)
             = Stream_Response (Some (evs, Exhausted))"
    and "error_free evs"
  shows "drain tr (snd (stream_nova_pro p)) = text_payloads evs
     \<and> JStr [] \<notin> set (drain tr (snd (stream_nova_pro p)))
     \<and> (list_all is_text (text_payloads evs) \<longrightarrow>
          snd (consume tr (snd (stream_nova_pro p))) = None
          \<and> concat (written (fst (consume tr (snd (stream_nova_pro p)))))
              = concat (map text_of (text_payloads evs)))"
proof -
  have d: "drain tr (Created p) = text_payloads evs"
    using assms by (simp add: drain_Created chunks_error_free)
  have "JStr [] \<notin> set (text_payloads evs)"
    by (auto simp: text_payloads_def)
  with d show ?thesis
    using consume_text [of tr "Created p"] by (simp add: stream_nova_pro_def)
qed

theorem stream_nova_pro_yields_text_payloads_witness:
  "drain hello_transport (snd (stream_nova_pro (snd (create_prompts hello_query))))
     = [JStr (ascii ''Hel''), JStr (ascii ''lo, ''), JStr (ascii ''world!'')]
   \<and> concat (written (fst (consume hello_transport
        (snd (stream_nova_pro (snd (create_prompts hello_query)))))))
     = ascii ''Hello, world!''
   \<and> length hello_events = 5"
  using stream_nova_pro_yields_text_payloads
    [where tr = hello_transport and p = "snd (create_prompts hello_query)"
       and evs = hello_events, OF hello_response error_free_hello]
  by (simp add: text_payloads_hello) (simp add: ascii_def hello_events_def)

text \<open>
  C4. When the transport raises before any fragment has been yielded (the streaming call
  itself raises, or iterating the stream raises after events that yielded nothing), the
  generator yields exactly one value, the fallback notice, which is a non-empty string,
  and then ends; \<open>chat\<close> writes that one fragment and raises nothing.
\<close>

theorem stream_nova_pro_fails_before_first_fragment:
  assumes "invoke_model_with_response_stream tr (pro_request p) = Stream_Call_Raises
     \<or> (\<exists>evs. invoke_model_with_response_stream tr (pro_request p)
                = Stream_Response (Some (evs, Raises))
              \<and> error_free evs \<and> text_payloads evs = [])"
  shows "drain tr (snd (stream_nova_pro p)) = [JStr pro_fallback]
     \<and> pro_fallback \<noteq> []
     \<and> snd (consume tr (snd (stream_nova_pro p))) = None
     \<and> written (fst (consume tr (snd (stream_nova_pro p)))) = [pro_fallback]"
proof -
  have d: "drain tr (Created p) = [JStr pro_fallback]"
    using assms by (auto simp: drain_Created chunks_error_free)
  have "pro_fallback \<noteq> []"
    by (simp add: pro_fallback_def)
  with d show ?thesis
    using consume_text [of tr "Created p"] by (simp add: stream_nova_pro_def)
qed

theorem stream_nova_pro_fails_before_first_fragment_witness:
  "drain stream_down_transport (snd (stream_nova_pro (snd (create_prompts hello_query))))
     = [JStr pro_fallback]
   \<and> drain (stream_transport [control_event (ascii ''messageStart'')] Raises)
        (snd (stream_nova_pro (snd (create_prompts hello_query))))
     = [JStr pro_fallback]
   \<and> snd (consume stream_down_transport
        (snd (stream_nova_pro (snd (create_prompts hello_query))))) = None
   \<and> written (fst (consume stream_down_transport
        (snd (stream_nova_pro (snd (create_prompts hello_query)))))) = [pro_fallback]
   \<and> length pro_fallback = 30"
proof -
  have a: "invoke_model_with_response_stream stream_down_transport
             (pro_request (snd (create_prompts hello_query))) = Stream_Call_Raises"
    by (simp add: stream_down_transport_def mock_transport_def)
  have b: "\<exists>evs. invoke_model_with_response_stream
               (stream_transport [control_event (ascii ''messageStart'')] Raises)
               (pro_request (snd (create_prompts hello_query)))
             = Stream_Response (Some (evs, Raises))
           \<and> error_free evs \<and> text_payloads evs = []"
    using stream_transport_response error_free_control text_payloads_control by blast
  from stream_nova_pro_fails_before_first_fragment [OF disjI1, OF a]
    stream_nova_pro_fails_before_first_fragment [OF disjI2, OF b]
  show ?thesis by (simp add: pro_fallback_def)
qed

text \<open>
  C2, as the code has it. When iterating the stream raises after at least one fragment
  has been yielded, the \<open>except\<close> clause that encloses the loop runs: the generator
  yields the fragments of the events before the failure, then one more value, the
  fallback notice, and then ends. No exception reaches the consumer: when the payloads
  are strings, \<open>chat\<close> writes them and the notice and raises nothing.
\<close>

theorem stream_nova_pro_mid_stream_failure:
  assumes "invoke_model_with_response_stream tr (pro_request p)
             = Stream_Response (Some (evs, Raises))"
    and "error_free evs"
    and "text_payloads evs \<noteq> []"
  shows "drain tr (snd (stream_nova_pro p)) = text_payloads evs @ [JStr pro_fallback]
     \<and> (list_all is_text (text_payloads evs) \<longrightarrow>
          snd (consume tr (snd (stream_nova_pro p))) = None
          \<and> written (fst (consume tr (snd (stream_nova_pro p))))
              = map text_of (text_payloads evs) @ [pro_fallback])"
proof -
  have d: "drain tr (Created p) = text_payloads evs @ [JStr pro_fallback]"
    using assms(1,2) by (simp add: drain_Created chunks_error_free)
  then show ?thesis
    using consume_text [of tr "Created p"] by (simp add: stream_nova_pro_def)
qed

theorem stream_nova_pro_mid_stream_failure_witness:
  "drain (stream_transport [delta_event (ascii ''Hel'')] Raises)
     (snd (stream_nova_pro (snd (create_prompts hello_query))))
     = [JStr (ascii ''Hel''), JStr pro_fallback]
   \<and> snd (consume (stream_transport [delta_event (ascii ''Hel'')] Raises)
        (snd (stream_nova_pro (snd (create_prompts hello_query))))) = None
   \<and> written (fst (consume (stream_transport [delta_event (ascii ''Hel'')] Raises)
        (snd (stream_nova_pro (snd (create_prompts hello_query))))))
     = [ascii ''Hel'', pro_fallback]"
  using stream_nova_pro_mid_stream_failure
    [where tr = "stream_transport [delta_event (ascii ''Hel'')] Raises"
       and p = "snd (create_prompts hello_query)"
       and evs = "[delta_event (ascii ''Hel'')]",
     OF stream_transport_response error_free_deltas]
  by (simp add: text_payloads_Hel)

text \<open>
  C2 as stated fails: after the fragment \<open>Hel\<close> and a failure of the transport, the
  fallback notice is yielded as a second fragment.
\<close>

theorem stream_nova_pro_mid_stream_counterexample:
  "drain (stream_transport [delta_event (ascii ''Hel'')] Raises)
     (snd (stream_nova_pro (snd (create_prompts hello_query))))
   = [JStr (ascii ''Hel''), JStr pro_fallback]"
  by (simp add: stream_nova_pro_def drain_Created stream_transport_response
        process_delta_event ascii_def)

text \<open>
  C3, as the code has it. Every event falls under exactly one of three heads, by what it
  is. A \<open>skippable\<close> event (no chunk; an object without \<open>contentBlockDelta\<close>, or whose
  block has no \<open>delta\<close>, or whose delta has no \<open>text\<close> or an empty one; a string or an
  array that does not contain \<open>contentBlockDelta\<close>) is passed over: the stream with it
  yields what the stream without it yields, and these are all the events the loop passes
  over. A \<open>fatal\<close> event (a chunk without bytes; bytes that cannot be decoded; \<open>null\<close>, a
  boolean or a number; a string or an array that contains \<open>contentBlockDelta\<close>; a
  \<open>contentBlockDelta\<close> or \<open>delta\<close> that is no object) is not passed over, and these are
  all the events on which the loop body raises: after the fragments of the events before
  it, the generator yields the fallback notice and ends, and the transport's stream has
  been read once for each event up to and including the fatal one, so no event after it
  is read. Any other event carries a non-empty text payload, which is yielded.
\<close>

theorem stream_nova_pro_event_skipped_or_fatal:
  assumes "invoke_model_with_response_stream tr (pro_request p)
             = Stream_Response (Some (evs @ ev # rest, e))"
    and "invoke_model_with_response_stream tr' (pro_request p)
             = Stream_Response (Some (evs @ rest, e))"
  shows "(skippable ev \<longrightarrow>
            drain tr (snd (stream_nova_pro p)) = drain tr' (snd (stream_nova_pro p)))
     \<and> (fatal ev \<and> error_free evs \<longrightarrow>
            drain tr (snd (stream_nova_pro p)) = text_payloads evs @ [JStr pro_fallback]
            \<and> count_list (drain_effects tr (snd (stream_nova_pro p))) Stream_Read
                = length evs + 1)
     \<and> skippable ev = (process_event ev = Inr None)
     \<and> fatal ev = raises ev
     \<and> (\<not> skippable ev \<and> \<not> fatal ev \<longrightarrow>
            (\<exists>v. delta_text ev = Some v \<and> truthy v \<and> process_event ev = Inr (Some v)))
     \<and> fatal (Chunk_Bytes None)"
proof -
  have skip: "drain tr (Created p) = drain tr' (Created p)" if "skippable ev"
    using assms skippable_process [OF that] by (simp add: drain_Created chunks_skip)
  have stop: "drain tr (Created p) = text_payloads evs @ [JStr pro_fallback]"
    and reads: "count_list (drain_effects tr (Created p)) Stream_Read = length evs + 1"
    if "fatal ev" and "error_free evs"
  proof -
    from that have r: "raises ev" by (simp add: fatal_iff)
    from assms(1) r that(2) show "drain tr (Created p) = text_payloads evs @ [JStr pro_fallback]"
      by (simp add: drain_Created chunks_raise)
    from reads_Created [OF assms(1)] takeWhile_error_free [OF that(2) r]
    show "count_list (drain_effects tr (Created p)) Stream_Read = length evs + 1"
      by simp
  qed
  have yield: "\<exists>v. delta_text ev = Some v \<and> truthy v \<and> process_event ev = Inr (Some v)"
    if ns: "\<not> skippable ev" and nf: "\<not> fatal ev"
  proof -
    from nf obtain r where r: "process_event ev = Inr r"
      by (auto simp: fatal_iff raises_def split: sum.splits)
    with ns obtain v where v: "r = Some v"
      by (cases r) (simp_all add: skippable_iff)
    from process_event_delta_text [OF r] v have "delta_text ev = Some v \<and> truthy v"
      by (auto split: option.splits if_splits)
    with r v show ?thesis by simp
  qed
  from skip stop reads yield show ?thesis
    by (simp add: stream_nova_pro_def skippable_iff [symmetric] fatal_iff [symmetric])
qed

theorem stream_nova_pro_event_skipped_or_fatal_witness:
  "skippable (control_event (ascii ''messageStop''))
   \<and> drain (stream_transport
        ([delta_event (ascii ''Hel'')] @ control_event (ascii ''messageStop'')
           # [delta_event (ascii ''lo'')]) Exhausted)
        (snd (stream_nova_pro (snd (create_prompts hello_query))))
     = drain (stream_transport
        ([delta_event (ascii ''Hel'')] @ [delta_event (ascii ''lo'')]) Exhausted)
        (snd (stream_nova_pro (snd (create_prompts hello_query))))
   \<and> skippable (Chunk_Bytes (Some (JStr (ascii ''ping''))))
   \<and> drain (stream_transport
        ([delta_event (ascii ''Hel'')] @ Chunk_Bytes (Some (JStr (ascii ''ping'')))
           # [delta_event (ascii ''lo'')]) Exhausted)
        (snd (stream_nova_pro (snd (create_prompts hello_query))))
     = drain (stream_transport
        ([delta_event (ascii ''Hel'')] @ [delta_event (ascii ''lo'')]) Exhausted)
        (snd (stream_nova_pro (snd (create_prompts hello_query))))
   \<and> fatal (Chunk_Bytes None)
   \<and> drain (stream_transport
        ([delta_event (ascii ''Hel'')] @ Chunk_Bytes None # [delta_event (ascii ''lo'')])
        Exhausted)
        (snd (stream_nova_pro (snd (create_prompts hello_query))))
     = [JStr (ascii ''Hel''), JStr pro_fallback]
   \<and> count_list (drain_effects (stream_transport
        ([delta_event (ascii ''Hel'')] @ Chunk_Bytes None # [delta_event (ascii ''lo'')])
        Exhausted)
        (snd (stream_nova_pro (snd (create_prompts hello_query))))) Stream_Read
     = 2"
proof -
  let ?p = "snd (create_prompts hello_query)"
  let ?a = "[delta_event (ascii ''Hel'')]" and ?b = "[delta_event (ascii ''lo'')]"
  note skip =
    stream_nova_pro_event_skipped_or_fatal
      [where tr = "stream_transport (?a @ control_event (ascii ''messageStop'') # ?b) Exhausted"
         and tr' = "stream_transport (?a @ ?b) Exhausted"
         and p = ?p and evs = ?a and ev = "control_event (ascii ''messageStop'')"
         and rest = ?b and e = Exhausted,
       OF stream_transport_response stream_transport_response]
  note ping =
    stream_nova_pro_event_skipped_or_fatal
      [where tr = "stream_transport (?a @ Chunk_Bytes (Some (JStr (ascii ''ping''))) # ?b)
                     Exhausted"
         and tr' = "stream_transport (?a @ ?b) Exhausted"
         and p = ?p and evs = ?a and ev = "Chunk_Bytes (Some (JStr (ascii ''ping'')))"
         and rest = ?b and e = Exhausted,
       OF stream_transport_response stream_transport_response]
  note stop =
    stream_nova_pro_event_skipped_or_fatal
      [where tr = "stream_transport (?a @ Chunk_Bytes None # ?b) Exhausted"
         and tr' = "stream_transport (?a @ ?b) Exhausted"
         and p = ?p and evs = ?a and ev = "Chunk_Bytes None"
         and rest = ?b and e = Exhausted,
       OF stream_transport_response stream_transport_response]
  from skip skippable_control
  have 1: "drain (stream_transport (?a @ control_event (ascii ''messageStop'') # ?b) Exhausted)
             (snd (stream_nova_pro ?p))
           = drain (stream_transport (?a @ ?b) Exhausted) (snd (stream_nova_pro ?p))"
    by blast
  from ping skippable_ping
  have 2: "drain (stream_transport (?a @ Chunk_Bytes (Some (JStr (ascii ''ping''))) # ?b)
             Exhausted) (snd (stream_nova_pro ?p))
           = drain (stream_transport (?a @ ?b) Exhausted) (snd (stream_nova_pro ?p))"
    by blast
  from stop have 3: "fatal (Chunk_Bytes None)"
    by blast
  from stop 3 error_free_deltas
  have 4: "drain (stream_transport (?a @ Chunk_Bytes None # ?b) Exhausted)
             (snd (stream_nova_pro ?p))
           = text_payloads ?a @ [JStr pro_fallback]"
    and 5: "count_list (drain_effects (stream_transport (?a @ Chunk_Bytes None # ?b) Exhausted)
             (snd (stream_nova_pro ?p))) Stream_Read = length ?a + 1"
    by blast+
  from 5 have 6: "count_list (drain_effects (stream_transport (?a @ Chunk_Bytes None # ?b)
             Exhausted) (snd (stream_nova_pro ?p))) Stream_Read = 2"
    by simp
  from 4 have 7: "drain (stream_transport (?a @ Chunk_Bytes None # ?b) Exhausted)
             (snd (stream_nova_pro ?p)) = [JStr (ascii ''Hel''), JStr pro_fallback]"
    by (simp only: text_payloads_Hel append_Cons append_Nil)
  from 1 2 3 6 7 skippable_control skippable_ping show ?thesis
    by (intro conjI)
qed

text \<open>
  C3 as stated fails: an undecodable event before the delta \<open>ok\<close> ends the stream with
  the fallback notice alone, where the stream without that event yields \<open>ok\<close>.
\<close>

theorem stream_nova_pro_undecodable_event_counterexample:
  "drain (stream_transport [Chunk_Bytes None, delta_event (ascii ''ok'')] Exhausted)
     (snd (stream_nova_pro (snd (create_prompts hello_query))))
   = [JStr pro_fallback]
   \<and> drain (stream_transport [delta_event (ascii ''ok'')] Exhausted)
     (snd (stream_nova_pro (snd (create_prompts hello_query))))
   = [JStr (ascii ''ok'')]"
  by (simp add: stream_nova_pro_def drain_Created stream_transport_response
        process_delta_event process_undecodable ascii_def)

section \<open>Properties of chat\<close>

text \<open>
  C10. Calling \<open>stream_nova_pro\<close> performs no effect: it only returns the generator. The
  streaming request is issued by the first \<open>next\<close> on that generator. So in every run of
  \<open>chat\<close> everything before the first pull of the \<open>for\<close> loop, the submission of the call
  and the return of its future included, is free of deep-tier transport effects, and the
  deep-tier request is issued after that pull.
\<close>

theorem stream_nova_pro_request_deferred:
  "fst (stream_nova_pro p) = []
   \<and> (\<exists>fx. fst (gen_next tr (snd (stream_nova_pro p)))
        = Print Line_Pro_Start # Invoke_Stream (pro_request p) # fx)
   \<and> (\<forall>t out. (t, out) \<in> chat_runs tr q \<longrightarrow>
        (\<exists>pre post.
           t = pre @ Pull # post
           \<and> Submit_Pro \<in> set pre \<and> Await_Pro \<in> set pre
           \<and> list_all (\<lambda>x. \<not> consumption x \<and> \<not> deep_tier x) pre
           \<and> Invoke_Stream (pro_request (snd (create_prompts q))) \<in> set post))"
proof (intro conjI allI impI)
  show "fst (stream_nova_pro p) = []"
    by (simp add: stream_nova_pro_def)
  show "\<exists>fx. fst (gen_next tr (snd (stream_nova_pro p)))
        = Print Line_Pro_Start # Invoke_Stream (pro_request p) # fx"
    using gen_next_Created [of tr p] by (simp add: stream_nova_pro_def)
next
  fix t out
  assume "(t, out) \<in> chat_runs tr q"
  from chat_run_shape [OF this] obtain a b rest where
    t: "t = [Print (Line_Query q), Print Line_Rule, Submit_Micro] @ a @ [Submit_Pro] @ b
         @ [Await_Micro (snd (invoke_nova_micro tr (fst (create_prompts q)))),
            Print Line_Micro_Header,
            Print (Line_Micro_Response (snd (invoke_nova_micro tr (fst (create_prompts q))))),
            Print Line_Pro_Header, Await_Pro, Pull, Print Line_Pro_Start,
            Invoke_Stream (pro_request (snd (create_prompts q)))]
         @ rest"
    and ab: "list_all micro_effect (a @ b)"
    by blast
  from micro_effects_not_deep [OF ab]
  have nd: "list_all (\<lambda>x. \<not> consumption x \<and> \<not> deep_tier x) (a @ b)"
    by (simp add: list_all_iff)
  show "\<exists>pre post.
           t = pre @ Pull # post
           \<and> Submit_Pro \<in> set pre \<and> Await_Pro \<in> set pre
           \<and> list_all (\<lambda>x. \<not> consumption x \<and> \<not> deep_tier x) pre
           \<and> Invoke_Stream (pro_request (snd (create_prompts q))) \<in> set post"
    by (intro exI [of _ "[Print (Line_Query q), Print Line_Rule, Submit_Micro] @ a
            @ [Submit_Pro] @ b
            @ [Await_Micro (snd (invoke_nova_micro tr (fst (create_prompts q)))),
               Print Line_Micro_Header,
               Print (Line_Micro_Response (snd (invoke_nova_micro tr (fst (create_prompts q))))),
               Print Line_Pro_Header, Await_Pro]"]
          exI [of _ "[Print Line_Pro_Start,
            Invoke_Stream (pro_request (snd (create_prompts q)))] @ rest"])
       (use t nd in simp)
qed

theorem stream_nova_pro_request_deferred_witness:
  "(hello_trace, None) \<in> chat_runs hello_transport hello_query
   \<and> fst (stream_nova_pro (snd (create_prompts hello_query))) = []
   \<and> (\<exists>pre post.
        hello_trace = pre @ Pull # post
        \<and> Submit_Pro \<in> set pre \<and> Await_Pro \<in> set pre
        \<and> list_all (\<lambda>x. \<not> consumption x \<and> \<not> deep_tier x) pre
        \<and> Invoke_Stream (pro_request (snd (create_prompts hello_query))) \<in> set post)"
  using hello_trace_run
    stream_nova_pro_request_deferred
      [of "snd (create_prompts hello_query)" hello_transport hello_query]
  by blast

text \<open>
  C6. In every run of \<open>chat\<close> the fast result is printed after its future has returned
  it and before the generator is pulled for the first time: nothing is pulled from the
  generator, written from it, or read from the deep-tier transport before that line.
\<close>

theorem chat_micro_response_before_first_pull:
  assumes "(t, out) \<in> chat_runs tr q"
  shows "\<exists>pre post.
     t = pre @ Print (Line_Micro_Response (snd (invoke_nova_micro tr (fst (create_prompts q))))) # post
     \<and> Await_Micro (snd (invoke_nova_micro tr (fst (create_prompts q)))) \<in> set pre
     \<and> list_all (\<lambda>x. \<not> consumption x \<and> \<not> deep_tier x) pre
     \<and> Pull \<in> set post"
proof -
  from chat_run_shape [OF assms] obtain a b rest where
    t: "t = [Print (Line_Query q), Print Line_Rule, Submit_Micro] @ a @ [Submit_Pro] @ b
         @ [Await_Micro (snd (invoke_nova_micro tr (fst (create_prompts q)))),
            Print Line_Micro_Header,
            Print (Line_Micro_Response (snd (invoke_nova_micro tr (fst (create_prompts q))))),
            Print Line_Pro_Header, Await_Pro, Pull, Print Line_Pro_Start,
            Invoke_Stream (pro_request (snd (create_prompts q)))]
         @ rest"
    and ab: "list_all micro_effect (a @ b)"
    by blast
  from micro_effects_not_deep [OF ab]
  have nd: "list_all (\<lambda>x. \<not> consumption x \<and> \<not> deep_tier x) (a @ b)"
    by (simp add: list_all_iff)
  show ?thesis
    by (intro exI [of _ "[Print (Line_Query q), Print Line_Rule, Submit_Micro] @ a
            @ [Submit_Pro] @ b
            @ [Await_Micro (snd (invoke_nova_micro tr (fst (create_prompts q)))),
               Print Line_Micro_Header]"]
          exI [of _ "[Print Line_Pro_Header, Await_Pro, Pull, Print Line_Pro_Start,
            Invoke_Stream (pro_request (snd (create_prompts q)))] @ rest"])
       (use t nd in simp)
qed

theorem chat_micro_response_before_first_pull_witness:
  "(hello_trace, None) \<in> chat_runs hello_transport hello_query
   \<and> (\<exists>pre post.
        hello_trace = pre @ Print (Line_Micro_Response (ascii ''ok'')) # post
        \<and> Await_Micro (ascii ''ok'') \<in> set pre
        \<and> list_all (\<lambda>x. \<not> consumption x \<and> \<not> deep_tier x) pre
        \<and> Pull \<in> set post)"
  using hello_trace_run chat_micro_response_before_first_pull [OF hello_trace_run]
  by (simp add: invoke_nova_micro_hello)

text \<open>
  C1, what the code does instead. Both calls are submitted before the first future is
  awaited, but in every run of \<open>chat\<close> no deep-tier transport effect occurs before
  \<open>future_micro.result()\<close> has returned; the deep-tier request is issued only afterwards.
\<close>

theorem chat_deep_request_after_micro_result:
  assumes "(t, out) \<in> chat_runs tr q"
  shows "\<exists>pre post.
     t = pre @ Await_Micro (snd (invoke_nova_micro tr (fst (create_prompts q)))) # post
     \<and> Submit_Micro \<in> set pre \<and> Submit_Pro \<in> set pre
     \<and> list_all (\<lambda>x. \<not> deep_tier x) pre
     \<and> Invoke_Stream (pro_request (snd (create_prompts q))) \<in> set post"
proof -
  from chat_run_shape [OF assms] obtain a b rest where
    t: "t = [Print (Line_Query q), Print Line_Rule, Submit_Micro] @ a @ [Submit_Pro] @ b
         @ [Await_Micro (snd (invoke_nova_micro tr (fst (create_prompts q)))),
            Print Line_Micro_Header,
            Print (Line_Micro_Response (snd (invoke_nova_micro tr (fst (create_prompts q))))),
            Print Line_Pro_Header, Await_Pro, Pull, Print Line_Pro_Start,
            Invoke_Stream (pro_request (snd (create_prompts q)))]
         @ rest"
    and ab: "list_all micro_effect (a @ b)"
    by blast
  from micro_effects_not_deep [OF ab] have nd: "list_all (\<lambda>x. \<not> deep_tier x) (a @ b)"
    by (simp add: list_all_iff)
  show ?thesis
    by (intro exI [of _ "[Print (Line_Query q), Print Line_Rule, Submit_Micro] @ a
            @ [Submit_Pro] @ b"]
          exI [of _ "[Print Line_Micro_Header,
            Print (Line_Micro_Response (snd (invoke_nova_micro tr (fst (create_prompts q))))),
            Print Line_Pro_Header, Await_Pro, Pull, Print Line_Pro_Start,
            Invoke_Stream (pro_request (snd (create_prompts q)))] @ rest"])
       (use t nd in simp)
qed

theorem chat_deep_request_after_micro_result_witness:
  "(hello_trace, None) \<in> chat_runs hello_transport hello_query
   \<and> (\<exists>pre post.
        hello_trace = pre @ Await_Micro (ascii ''ok'') # post
        \<and> Submit_Micro \<in> set pre \<and> Submit_Pro \<in> set pre
        \<and> list_all (\<lambda>x. \<not> deep_tier x) pre
        \<and> Invoke_Stream (pro_request (snd (create_prompts hello_query))) \<in> set post)"
  using hello_trace_run chat_deep_request_after_micro_result [OF hello_trace_run]
  by (simp add: invoke_nova_micro_hello)

end
